theory Spec2Isabelle
  imports Main
begin

section \<open>JavaScript values and strings\<close>

text \<open>
  The program is \<^verbatim>\<open>src/server.js\<close>. Its strings are modelled as HOL strings. The
  string methods it calls (\<^verbatim>\<open>trim\<close>, \<^verbatim>\<open>toUpperCase\<close>, \<^verbatim>\<open>toLowerCase\<close>,
  \<^verbatim>\<open>includes\<close>, \<^verbatim>\<open>startsWith\<close>) are modelled as they act on ASCII strings: the
  case maps change the 26 letters only, and \<^verbatim>\<open>trim\<close> strips TAB, LF, VT, FF, CR and
  SPACE. A character above 127 is left alone by all of them, whereas JavaScript also
  strips U+00A0 and the other Unicode spaces and maps letters beyond ASCII (U+00DF to
  \<^verbatim>\<open>SS\<close>). The model of these methods is exact on the strings that satisfy
  \<open>ascii\<close> below, and only there.
\<close>

definition is_space_js :: "char \<Rightarrow> bool" where
  "is_space_js c = (of_char c \<in> {9::nat, 10, 11, 12, 13, 32})"

definition toUpperChar :: "char \<Rightarrow> char" where
  "toUpperChar c =
     (let n = of_char c :: nat in if 97 \<le> n \<and> n \<le> 122 then char_of (n - 32) else c)"

definition toLowerChar :: "char \<Rightarrow> char" where
  "toLowerChar c =
     (let n = of_char c :: nat in if 65 \<le> n \<and> n \<le> 90 then char_of (n + 32) else c)"

definition toUpperCase :: "string \<Rightarrow> string" where
  "toUpperCase s = map toUpperChar s"

definition toLowerCase :: "string \<Rightarrow> string" where
  "toLowerCase s = map toLowerChar s"

definition trim :: "string \<Rightarrow> string" where
  "trim s = rev (dropWhile is_space_js (rev (dropWhile is_space_js s)))"

definition startsWith :: "string \<Rightarrow> string \<Rightarrow> bool" where
  "startsWith s pat = (take (length pat) s = pat)"

fun includes_js :: "string \<Rightarrow> string \<Rightarrow> bool" where
  "includes_js [] pat = (pat = [])"
| "includes_js (c # cs) pat = (startsWith (c # cs) pat \<or> includes_js cs pat)"

definition ascii :: "string \<Rightarrow> bool" where
  "ascii s = list_all (\<lambda>c. (of_char c :: nat) < 128) s"

text \<open>
  A JavaScript value as the program can meet one: \<^verbatim>\<open>undefined\<close>, or a value that
  \<^verbatim>\<open>JSON.parse\<close> builds. A number is carried as the text that \<^verbatim>\<open>String(n)\<close> yields
  for it (\<^verbatim>\<open>0\<close>, \<^verbatim>\<open>1.5\<close>, \<^verbatim>\<open>1e+21\<close>); the program only tests numbers for
  truthiness and converts them to strings. An object is the list of its own properties.
\<close>

datatype jsval =
    JUndefined
  | JNull
  | JBool bool
  | JNum string
  | JStr string
  | JArr "jsval list"
  | JObj "(string \<times> jsval) list"

datatype error =
    ValidationError string
  | TypeError string
  | FetchError string

fun error_message :: "error \<Rightarrow> string" where
  "error_message (ValidationError m) = m"
| "error_message (TypeError m) = m"
| "error_message (FetchError m) = m"

text \<open>Truthiness, as \<^verbatim>\<open>||\<close>, \<^verbatim>\<open>!\<close> and \<^verbatim>\<open>if\<close> read it.\<close>

fun truthy :: "jsval \<Rightarrow> bool" where
  "truthy JUndefined = False"
| "truthy JNull = False"
| "truthy (JBool b) = b"
| "truthy (JNum n) = (n \<noteq> ''0'' \<and> n \<noteq> ''NaN'')"
| "truthy (JStr s) = (s \<noteq> [])"
| "truthy (JArr xs) = True"
| "truthy (JObj kvs) = True"

definition or_js :: "jsval \<Rightarrow> jsval \<Rightarrow> jsval" where
  "or_js a b = (if truthy a then a else b)"

text \<open>
  Reading a property \<^verbatim>\<open>v.name\<close> of a value that is neither \<^verbatim>\<open>null\<close> nor
  \<^verbatim>\<open>undefined\<close>. The names the program reads (\<^verbatim>\<open>code\<close>, \<^verbatim>\<open>status\<close>,
  \<^verbatim>\<open>result\<close>, \<^verbatim>\<open>message\<close>, \<^verbatim>\<open>errorMessage\<close>, \<^verbatim>\<open>statusMessage\<close>,
  \<^verbatim>\<open>success\<close>, \<^verbatim>\<open>available\<close>, \<^verbatim>\<open>isValid\<close>, \<^verbatim>\<open>plate\<close>) are on no built-in
  prototype, so a read that misses the own properties of an object, and every such read
  on a number, a boolean, a string or an array, is \<^verbatim>\<open>undefined\<close>.
\<close>

fun get_prop :: "jsval \<Rightarrow> string \<Rightarrow> jsval" where
  "get_prop (JObj kvs) name = (case map_of kvs name of Some v \<Rightarrow> v | None \<Rightarrow> JUndefined)"
| "get_prop v name = JUndefined"

text \<open>A value that is no string, or an ASCII string.\<close>

definition ascii_text :: "jsval \<Rightarrow> bool" where
  "ascii_text v = (case v of JStr s \<Rightarrow> ascii s | _ \<Rightarrow> True)"

section \<open>normalizePlate\<close>

definition plate_char :: "char \<Rightarrow> bool" where
  "plate_char c =
     (let n = of_char c :: nat
      in (65 \<le> n \<and> n \<le> 90) \<or> (48 \<le> n \<and> n \<le> 57) \<or> n = 47 \<or> n = 32)"

text \<open>
  A character of the alphabet \<^verbatim>\<open>A-Z0-9/ \<close> read case-insensitively: one that
  the class accepts once uppercased.
\<close>

definition plate_input_char :: "char \<Rightarrow> bool" where
  "plate_input_char c = plate_char (toUpperChar c)"

text \<open>The test \<^verbatim>\<open>/^[A-Z0-9/ ]+$/.test(normalized)\<close>.\<close>

definition plate_regex :: "string \<Rightarrow> bool" where
  "plate_regex s = (s \<noteq> [] \<and> list_all plate_char s)"

definition normalizePlate :: "jsval \<Rightarrow> error + string" where
  "normalizePlate input =
     (case input of
        JStr s \<Rightarrow>
          (let normalized = toUpperCase (trim s)
           in if length normalized = 0 then Inl (ValidationError ''Plate cannot be empty.'')
              else if length normalized < 2 \<or> length normalized > 7
                then Inl (ValidationError ''Plates must be between 2 and 7 characters.'')
              else if \<not> plate_regex normalized
                then Inl (ValidationError
                  (''Only letters A-Z, digits 0-9, spaces, and '' @ [CHR 0x22] @ ''/''
                     @ [CHR 0x22] @ '' are allowed.''))
              else Inr normalized)
      | _ \<Rightarrow> Inl (ValidationError ''Plate must be text.''))"

section \<open>The rate limiter\<close>

definition CACHE_TTL_MS :: int where
  "CACHE_TTL_MS = 5 * 60 * 1000"

definition RATE_LIMIT_WINDOW_MS :: int where
  "RATE_LIMIT_WINDOW_MS = 60 * 1000"

definition RATE_LIMIT_MAX_REQUESTS :: nat where
  "RATE_LIMIT_MAX_REQUESTS = 20"

record bucket =
  count :: nat
  windowStart :: int

type_synonym buckets = "string \<rightharpoonup> bucket"

text \<open>
  \<^verbatim>\<open>isRateLimited(ip)\<close>, with the map \<^verbatim>\<open>requestBuckets\<close> and the reading of
  \<^verbatim>\<open>Date.now()\<close> passed in and the updated map returned. The result \<open>True\<close> means
  that the request is refused.
\<close>

definition isRateLimited :: "buckets \<Rightarrow> string \<Rightarrow> int \<Rightarrow> bool \<times> buckets" where
  "isRateLimited requestBuckets ip now =
     (case requestBuckets ip of
        None \<Rightarrow> (False, requestBuckets(ip \<mapsto> \<lparr>count = 1, windowStart = now\<rparr>))
      | Some bucket \<Rightarrow>
          if now - windowStart bucket \<ge> RATE_LIMIT_WINDOW_MS
            then (False, requestBuckets(ip \<mapsto> \<lparr>count = 1, windowStart = now\<rparr>))
          else if count bucket \<ge> RATE_LIMIT_MAX_REQUESTS then (True, requestBuckets)
          else (False, requestBuckets(ip \<mapsto> bucket\<lparr>count := count bucket + 1\<rparr>)))"

text \<open>Successive calls for one client, at the given readings of the clock.\<close>

fun isRateLimited_calls :: "buckets \<Rightarrow> string \<Rightarrow> int list \<Rightarrow> bool list \<times> buckets" where
  "isRateLimited_calls requestBuckets ip [] = ([], requestBuckets)"
| "isRateLimited_calls requestBuckets ip (now # later) =
     (let (r, requestBuckets') = isRateLimited requestBuckets ip now;
          (rs, requestBuckets'') = isRateLimited_calls requestBuckets' ip later
      in (r # rs, requestBuckets''))"

text \<open>
  The call at \<open>now\<close> opens a window for the client: there is no bucket yet, or the
  bucket's window has elapsed.
\<close>

definition opens_window :: "buckets \<Rightarrow> string \<Rightarrow> int \<Rightarrow> bool" where
  "opens_window requestBuckets ip now =
     (case requestBuckets ip of
        None \<Rightarrow> True
      | Some bucket \<Rightarrow> now - windowStart bucket \<ge> RATE_LIMIT_WINDOW_MS)"

definition within_window :: "int \<Rightarrow> int \<Rightarrow> bool" where
  "within_window start now = (now - start < RATE_LIMIT_WINDOW_MS)"

section \<open>The result cache\<close>

record 'r entry =
  result :: 'r
  expiresAt :: int

type_synonym 'r cache = "string \<rightharpoonup> 'r entry"

definition getCachedResult :: "'r cache \<Rightarrow> string \<Rightarrow> int \<Rightarrow> 'r option \<times> 'r cache" where
  "getCachedResult plateCache plate now =
     (case plateCache plate of
        None \<Rightarrow> (None, plateCache)
      | Some entry \<Rightarrow>
          if now > expiresAt entry then (None, plateCache(plate := None))
          else (Some (result entry), plateCache))"

definition setCachedResult :: "'r cache \<Rightarrow> string \<Rightarrow> 'r \<Rightarrow> int \<Rightarrow> 'r cache" where
  "setCachedResult plateCache plate r now =
     plateCache(plate \<mapsto> \<lparr>result = r, expiresAt = now + CACHE_TTL_MS\<rparr>)"

section \<open>interpretDmvResponse\<close>

text \<open>
  \<^verbatim>\<open>String(v)\<close>. An array is joined with commas, \<^verbatim>\<open>null\<close> and \<^verbatim>\<open>undefined\<close>
  elements giving the empty string. An object built by \<^verbatim>\<open>JSON.parse\<close> inherits
  \<^verbatim>\<open>Object.prototype.toString\<close> and gives \<^verbatim>\<open>[object Object]\<close>, unless it has an own
  property named \<^verbatim>\<open>toString\<close>: that one is not callable, \<^verbatim>\<open>valueOf\<close> yields no
  primitive either, and the conversion throws a TypeError.
\<close>

fun String_js :: "jsval \<Rightarrow> error + string"
  and join_js :: "jsval list \<Rightarrow> error + string" where
  "String_js JUndefined = Inr ''undefined''"
| "String_js JNull = Inr ''null''"
| "String_js (JBool b) = Inr (if b then ''true'' else ''false'')"
| "String_js (JNum n) = Inr n"
| "String_js (JStr s) = Inr s"
| "String_js (JArr xs) = join_js xs"
| "String_js (JObj kvs) =
     (if map_of kvs ''toString'' = None then Inr ''[object Object]''
      else Inl (TypeError ''Cannot convert object to primitive value''))"
| "join_js [] = Inr []"
| "join_js (x # xs) =
     (case (if x = JNull \<or> x = JUndefined then Inr [] else String_js x) of
        Inl e \<Rightarrow> Inl e
      | Inr a \<Rightarrow>
          if xs = [] then Inr a
          else (case join_js xs of Inl e \<Rightarrow> Inl e | Inr b \<Rightarrow> Inr (a @ '','' @ b)))"

record interpreted =
  status :: string
  message :: jsval

text \<open>
  What \<^verbatim>\<open>interpretDmvResponse\<close> can return: an object literal
  \<^verbatim>\<open>{ status, message }\<close>, or a property that the object \<^verbatim>\<open>messageMap\<close> inherits
  from \<^verbatim>\<open>Object.prototype\<close> (the constructor \<^verbatim>\<open>Object\<close>, the prototype itself
  under \<^verbatim>\<open>__proto__\<close>, or one of the built-in methods).
\<close>

datatype retval =
    Literal interpreted
  | ObjectConstructor
  | ObjectPrototype
  | ObjectMethod string

text \<open>The reads \<^verbatim>\<open>r.status\<close> (\<open>None\<close> for \<^verbatim>\<open>undefined\<close>) and \<^verbatim>\<open>r.message\<close>.\<close>

fun status_of :: "retval \<Rightarrow> string option" where
  "status_of (Literal r) = Some (status r)"
| "status_of r = None"

fun message_of :: "retval \<Rightarrow> jsval" where
  "message_of (Literal r) = message r"
| "message_of r = JUndefined"

definition messageMap :: "(string \<times> interpreted) list" where
  "messageMap =
     [(''message.available'',
        \<lparr>status = ''available'', message = JStr ''That plate is available.''\<rparr>),
      (''message.notavailable'',
        \<lparr>status = ''taken'', message = JStr ''That plate appears to be taken.''\<rparr>),
      (''message.taken'',
        \<lparr>status = ''taken'', message = JStr ''That plate appears to be taken.''\<rparr>),
      (''message.invalid'',
        \<lparr>status = ''invalid'', message = JStr ''That plate is invalid.''\<rparr>),
      (''message.global'',
        \<lparr>status = ''unavailable'',
         message = JStr ''DMV returned a temporary error. Please try again.''\<rparr>)]"

definition Object_prototype_methods :: "string list" where
  "Object_prototype_methods =
     [''__defineGetter__'', ''__defineSetter__'', ''hasOwnProperty'', ''__lookupGetter__'',
      ''__lookupSetter__'', ''isPrototypeOf'', ''propertyIsEnumerable'', ''toString'',
      ''valueOf'', ''toLocaleString'']"

text \<open>
  The read \<^verbatim>\<open>messageMap[key]\<close>: an own property first, then the prototype chain of
  an object literal. \<open>None\<close> is \<^verbatim>\<open>undefined\<close>; every other value is truthy.
\<close>

definition messageMap_get :: "string \<Rightarrow> retval option" where
  "messageMap_get key =
     (case map_of messageMap key of
        Some r \<Rightarrow> Some (Literal r)
      | None \<Rightarrow>
          if key = ''constructor'' then Some ObjectConstructor
          else if key = ''__proto__'' then Some ObjectPrototype
          else if key \<in> set Object_prototype_methods then Some (ObjectMethod key)
          else None)"

definition payload_code :: "jsval \<Rightarrow> error + string" where
  "payload_code payload =
     (case String_js
             (or_js (or_js (or_js (get_prop payload ''code'') (get_prop payload ''status''))
                       (get_prop payload ''result''))
                (JStr [])) of
        Inl e \<Rightarrow> Inl e
      | Inr s \<Rightarrow> Inr (toUpperCase s))"

definition payload_message :: "jsval \<Rightarrow> jsval" where
  "payload_message payload =
     or_js (or_js (get_prop payload ''message'') (get_prop payload ''errorMessage''))
       (get_prop payload ''statusMessage'')"

definition normalizedMessage_of :: "jsval \<Rightarrow> string" where
  "normalizedMessage_of msg =
     (case msg of JStr s \<Rightarrow> toLowerCase (trim s) | _ \<Rightarrow> [])"

text \<open>The conditions of the four \<^verbatim>\<open>if\<close> statements on the code and the flags.\<close>

definition success_and_available :: "jsval \<Rightarrow> string \<Rightarrow> bool" where
  "success_and_available payload code =
     (get_prop payload ''success'' = JBool True \<and> code = ''AVAILABLE'')"

definition signals_available :: "jsval \<Rightarrow> string \<Rightarrow> bool" where
  "signals_available payload code =
     (get_prop payload ''available'' = JBool True \<or> code = ''AVAILABLE'' \<or> code = ''SUCCESS'')"

definition signals_invalid :: "jsval \<Rightarrow> string \<Rightarrow> bool" where
  "signals_invalid payload code =
     (code = ''VALIDATION'' \<or> code = ''INVALID'' \<or> get_prop payload ''isValid'' = JBool False)"

definition signals_taken :: "jsval \<Rightarrow> string \<Rightarrow> bool" where
  "signals_taken payload code =
     (code = ''TAKEN'' \<or> code = ''UNAVAILABLE'' \<or> code = ''NOT_AVAILABLE''
      \<or> get_prop payload ''available'' = JBool False)"

definition interpret_text :: "string \<Rightarrow> retval" where
  "interpret_text payload =
     (let text = toLowerCase payload
      in if includes_js text ''can be requested'' \<or> includes_js text ''available''
           then Literal \<lparr>status = ''available'', message = JStr ''That plate is available.''\<rparr>
         else if includes_js text ''not available'' \<or> includes_js text ''already in use''
                 \<or> includes_js text ''unavailable''
           then Literal \<lparr>status = ''taken'', message = JStr ''That plate appears to be taken.''\<rparr>
         else Literal \<lparr>status = ''unavailable'',
                message = JStr ''Could not interpret DMV response. Please try again.''\<rparr>)"

definition interpret_object :: "jsval \<Rightarrow> string \<Rightarrow> retval" where
  "interpret_object payload code =
     (let msg = payload_message payload;
          normalizedMessage = normalizedMessage_of msg
      in case messageMap_get normalizedMessage of
           Some r \<Rightarrow> r
         | None \<Rightarrow>
             if success_and_available payload code
               then Literal \<lparr>status = ''available'', message = JStr ''That plate is available.''\<rparr>
             else if signals_available payload code
               then Literal \<lparr>status = ''available'',
                      message = or_js msg (JStr ''That plate is available.'')\<rparr>
             else if signals_invalid payload code
               then Literal \<lparr>status = ''invalid'',
                      message = or_js msg (JStr ''That plate is invalid.'')\<rparr>
             else if signals_taken payload code
               then Literal \<lparr>status = ''taken'',
                      message = or_js msg (JStr ''That plate appears to be taken.'')\<rparr>
             else (case msg of
                     JStr m \<Rightarrow>
                       if length m > 0 \<and> \<not> startsWith normalizedMessage ''message.''
                         then Literal \<lparr>status = ''taken'', message = msg\<rparr>
                       else Literal \<lparr>status = ''unavailable'',
                              message = JStr ''Could not interpret DMV response. Please try again.''\<rparr>
                   | _ \<Rightarrow>
                       Literal \<lparr>status = ''unavailable'',
                         message = JStr ''Could not interpret DMV response. Please try again.''\<rparr>))"

text \<open>
  \<^verbatim>\<open>interpretDmvResponse(payload, httpStatus)\<close>. \<open>Inl\<close> is an exception thrown by
  the call \<^verbatim>\<open>String(...)\<close> of line 147, the first statement of the structured branch.
\<close>

definition interpretDmvResponse :: "jsval \<Rightarrow> int \<Rightarrow> error + retval" where
  "interpretDmvResponse payload httpStatus =
     (if httpStatus \<ge> 500
        then Inr (Literal \<lparr>status = ''unavailable'',
               message = JStr ''DMV service is temporarily unavailable. Please try again shortly.''\<rparr>)
      else if payload = JNull \<or> payload = JUndefined
        then Inr (Literal \<lparr>status = ''unavailable'',
               message = JStr ''Unexpected response from DMV service.''\<rparr>)
      else (case payload of
              JStr text \<Rightarrow> Inr (interpret_text text)
            | _ \<Rightarrow>
                (case payload_code payload of
                   Inl e \<Rightarrow> Inl e
                 | Inr code \<Rightarrow> Inr (interpret_object payload code))))"


definition statuses :: "string list" where
  "statuses = [''available'', ''taken'', ''invalid'', ''unavailable'']"

section \<open>The request handler\<close>

text \<open>
  A request, as the handler reads it: the header \<^verbatim>\<open>x-forwarded-for\<close> when it is a
  string, \<^verbatim>\<open>request.ip\<close>, and \<^verbatim>\<open>request.body\<close> (\<open>JUndefined\<close> when absent).
\<close>

record request =
  x_forwarded_for :: "string option"
  ip :: "string option"
  body :: jsval

definition getClientIp :: "request \<Rightarrow> string" where
  "getClientIp request =
     (case x_forwarded_for request of
        Some forwarded \<Rightarrow>
          if length forwarded > 0 then trim (takeWhile (\<lambda>c. c \<noteq> CHR '','') forwarded)
          else (case ip request of Some a \<Rightarrow> if a = [] then ''unknown'' else a
                                 | None \<Rightarrow> ''unknown'')
      | None \<Rightarrow>
          (case ip request of Some a \<Rightarrow> if a = [] then ''unknown'' else a
                            | None \<Rightarrow> ''unknown''))"

record server_state =
  requestBuckets :: buckets
  plateCache :: "retval cache"

text \<open>The three readings of \<^verbatim>\<open>Date.now()\<close> that one request can make.\<close>

record clock =
  now_rate :: int
  now_lookup :: int
  now_store :: int

text \<open>
  A reply: the HTTP code and the body sent. \<open>ErrorBody\<close> is \<^verbatim>\<open>{ error, details }\<close>,
  \<open>ResultBody r c\<close> is \<^verbatim>\<open>{ ...r, cached: c }\<close>.
\<close>

datatype reply_body =
    ErrorBody jsval "string option"
  | ResultBody retval bool

datatype reply = Reply nat reply_body

text \<open>The \<^verbatim>\<open>catch\<close> block of the handler.\<close>

definition reply_caught :: "error \<Rightarrow> reply" where
  "reply_caught err =
     (case err of
        ValidationError m \<Rightarrow> Reply 400 (ErrorBody (JStr m) None)
      | _ \<Rightarrow> Reply 502 (ErrorBody (JStr ''Unable to reach DMV endpoint.'')
                 (Some (error_message err))))"

text \<open>
  The handler of \<^verbatim>\<open>POST /api/check-plate\<close>. The exchange with the upstream service
  (the two calls of \<^verbatim>\<open>fetch\<close> and the decoding of the body) is an input: \<open>Inl\<close> an
  exception it throws, \<open>Inr\<close> the HTTP status and the decoded payload. It is consulted
  only when the handler reaches it.
\<close>

definition check_plate ::
  "server_state \<Rightarrow> request \<Rightarrow> clock \<Rightarrow> error + int \<times> jsval \<Rightarrow> reply \<times> server_state" where
  "check_plate st request clk upstream =
     (let (limited, buckets') =
            isRateLimited (requestBuckets st) (getClientIp request) (now_rate clk);
          st1 = st\<lparr>requestBuckets := buckets'\<rparr>
      in if limited
           then (Reply 429 (ErrorBody
                   (JStr ''Too many requests. Please wait a minute and try again.'') None), st1)
         else
           (let plate = get_prop (or_js (body request) (JObj [])) ''plate''
            in if plate = JUndefined \<or> plate = JNull
                 then (Reply 400 (ErrorBody (JStr ''Missing plate value.'') None), st1)
               else
                 (case normalizePlate plate of
                    Inl err \<Rightarrow> (reply_caught err, st1)
                  | Inr normalized \<Rightarrow>
                      (let (cached, cache') =
                             getCachedResult (plateCache st1) normalized (now_lookup clk);
                           st2 = st1\<lparr>plateCache := cache'\<rparr>
                       in case cached of
                            Some r \<Rightarrow> (Reply 200 (ResultBody r True), st2)
                          | None \<Rightarrow>
                              (case upstream of
                                 Inl err \<Rightarrow> (reply_caught err, st2)
                               | Inr (httpStatus, payload) \<Rightarrow>
                                   (case interpretDmvResponse payload httpStatus of
                                      Inl err \<Rightarrow> (reply_caught err, st2)
                                    | Inr interpreted \<Rightarrow>
                                        if status_of interpreted = Some ''unavailable''
                                          then (Reply 502
                                                  (ErrorBody (message_of interpreted) None), st2)
                                        else (Reply 200 (ResultBody interpreted False),
                                              st2\<lparr>plateCache :=
                                                setCachedResult (plateCache st2) normalized
                                                  interpreted (now_store clk)\<rparr>)))))))"

text \<open>
  What the handler means to store and to send with code 200: a value whose status, when
  it has one, is \<^verbatim>\<open>available\<close>, \<^verbatim>\<open>taken\<close> or \<^verbatim>\<open>invalid\<close>.
\<close>

definition storable :: "retval \<Rightarrow> bool" where
  "storable r =
     (case status_of r of
        None \<Rightarrow> True
      | Some s \<Rightarrow> s = ''available'' \<or> s = ''taken'' \<or> s = ''invalid'')"

definition cache_storable :: "retval cache \<Rightarrow> bool" where
  "cache_storable c = (\<forall>k e. c k = Some e \<longrightarrow> storable (result e))"

section \<open>Properties of normalizePlate\<close>

lemma is_space_toUpperChar: "is_space_js (toUpperChar c) = is_space_js c"
  by (auto simp: is_space_js_def toUpperChar_def Let_def)

lemma dropWhile_space_upper:
  "dropWhile is_space_js (map toUpperChar s) = map toUpperChar (dropWhile is_space_js s)"
  by (induction s) (simp_all add: is_space_toUpperChar)

lemma trim_toUpperCase: "trim (toUpperCase s) = toUpperCase (trim s)"
  by (simp add: trim_def toUpperCase_def dropWhile_space_upper rev_map)

lemma dropWhile_space_idem:
  "dropWhile is_space_js (dropWhile is_space_js s) = dropWhile is_space_js s"
  by (induction s) simp_all

lemma dropWhile_snoc_keeps:
  "\<not> P x \<Longrightarrow> \<exists>ys. dropWhile P (zs @ [x]) = ys @ [x]"
  by (induction zs) auto

lemma trim_front: "dropWhile is_space_js (trim s) = trim s"
proof (cases "dropWhile is_space_js s")
  case Nil
  have "trim s = []"
    unfolding trim_def Nil by simp
  then show ?thesis by simp
next
  case (Cons x xs)
  have nx: "\<not> is_space_js x"
    using Cons hd_dropWhile[of is_space_js s] by simp
  obtain ys where "dropWhile is_space_js (rev xs @ [x]) = ys @ [x]"
    using nx dropWhile_snoc_keeps[of is_space_js x "rev xs"] by blast
  then have "trim s = x # rev ys"
    unfolding trim_def Cons by simp
  then show ?thesis
    using nx by simp
qed

lemma trim_idem: "trim (trim s) = trim s"
proof -
  have "dropWhile is_space_js (rev (trim s)) = rev (trim s)"
    by (simp add: trim_def dropWhile_space_idem)
  then show ?thesis
    by (simp add: trim_def[of "trim s"] trim_front)
qed

lemma plate_char_upper_fixed: "plate_char c \<Longrightarrow> toUpperChar c = c"
  by (auto simp: plate_char_def toUpperChar_def Let_def)

lemma plate_regex_upper_fixed: "plate_regex s \<Longrightarrow> toUpperCase s = s"
  by (simp add: plate_regex_def toUpperCase_def list_all_iff map_idI plate_char_upper_fixed)

lemma set_trim: "set (trim s) \<subseteq> set s"
proof
  fix c
  assume "c \<in> set (trim s)"
  then have "c \<in> set (dropWhile is_space_js (rev (dropWhile is_space_js s)))"
    by (simp add: trim_def)
  then have "c \<in> set (dropWhile is_space_js s)"
    using set_dropWhileD by fastforce
  then show "c \<in> set s"
    by (rule set_dropWhileD)
qed

lemma normalizePlate_Inr:
  assumes "normalizePlate x = Inr k"
  obtains s where "x = JStr s" and "k = toUpperCase (trim s)"
    and "2 \<le> length k" and "length k \<le> 7" and "plate_regex k"
  using assms
  by (cases x) (auto simp: normalizePlate_def Let_def split: if_splits)

text \<open>
  C8 as stated fails: the length test is made on the trimmed string, so an input of
  accepted length and alphabet whose trimmed form is too short is rejected. Two spaces
  are such an input.
\<close>

theorem normalizePlate_two_spaces_rejected:
  "length ''  '' = 2 \<and> list_all plate_input_char ''  ''
   \<and> normalizePlate (JStr ''  '') = Inl (ValidationError ''Plate cannot be empty.'')"
  by code_simp

text \<open>
  C8, amended: for every string whose characters are all in \<^verbatim>\<open>A-Z0-9/ \<close>
  (case-insensitive) and whose trimmed form has length 2 to 7, \<^verbatim>\<open>normalizePlate\<close>
  succeeds and returns the uppercased, trimmed form of the input.
\<close>

theorem normalizePlate_accepts:
  assumes chars: "list_all plate_input_char s"
    and lo: "2 \<le> length (trim s)" and hi: "length (trim s) \<le> 7"
  shows "normalizePlate (JStr s) = Inr (toUpperCase (trim s))"
proof -
  have "list_all plate_input_char (trim s)"
    using chars set_trim[of s] by (auto simp: list_all_iff)
  then have "list_all plate_char (toUpperCase (trim s))"
    by (simp add: toUpperCase_def list_all_iff plate_input_char_def)
  moreover have "toUpperCase (trim s) \<noteq> []"
    using lo by (auto simp: toUpperCase_def)
  ultimately have "plate_regex (toUpperCase (trim s))"
    by (simp add: plate_regex_def)
  moreover have "length (toUpperCase (trim s)) = length (trim s)"
    by (simp add: toUpperCase_def)
  ultimately show ?thesis
    using lo hi by (auto simp: normalizePlate_def Let_def)
qed

theorem normalizePlate_accepts_witness:
  "list_all plate_input_char '' ab1'' \<and> trim '' ab1'' = ''ab1''
   \<and> normalizePlate (JStr '' ab1'') = Inr ''AB1''"
proof -
  have t: "trim '' ab1'' = ''ab1''"
    by code_simp
  have c: "list_all plate_input_char '' ab1''"
    by code_simp
  have u: "toUpperCase ''ab1'' = ''AB1''"
    by code_simp
  show ?thesis
    using normalizePlate_accepts[OF c] t c u by simp
qed

text \<open>
  C10: \<^verbatim>\<open>normalizePlate\<close> is idempotent. When it succeeds on an input with output
  \<open>k\<close>, it succeeds on \<open>k\<close> and returns \<open>k\<close> unchanged.
\<close>

theorem normalizePlate_idempotent:
  assumes "normalizePlate x = Inr k"
  shows "normalizePlate (JStr k) = Inr k"
proof -
  from assms obtain s where k: "k = toUpperCase (trim s)"
    and len: "2 \<le> length k" "length k \<le> 7" and re: "plate_regex k"
    by (rule normalizePlate_Inr)
  have "trim k = k"
    by (simp add: k trim_toUpperCase trim_idem)
  then have "toUpperCase (trim k) = k"
    using re by (simp add: plate_regex_upper_fixed)
  then show ?thesis
    using len re by (auto simp: normalizePlate_def Let_def)
qed

theorem normalizePlate_idempotent_witness:
  "normalizePlate (JStr '' a/b 1 '') = Inr ''A/B 1''
   \<and> normalizePlate (JStr ''A/B 1'') = Inr ''A/B 1''"
proof -
  have h: "normalizePlate (JStr '' a/b 1 '') = Inr ''A/B 1''"
    by code_simp
  show ?thesis
    using normalizePlate_idempotent[OF h] h by simp
qed

section \<open>Properties of the rate limiter\<close>

lemma isRateLimited_admits:
  assumes "bs client = Some \<lparr>count = c, windowStart = w\<rparr>"
    and "within_window w now" and "c < RATE_LIMIT_MAX_REQUESTS"
  shows "isRateLimited bs client now
         = (False, bs(client \<mapsto> \<lparr>count = Suc c, windowStart = w\<rparr>))"
  using assms by (simp add: isRateLimited_def within_window_def)

lemma isRateLimited_calls_within_window:
  assumes "bs client = Some \<lparr>count = c, windowStart = w\<rparr>"
    and "list_all (within_window w) ts"
    and "c + length ts \<le> RATE_LIMIT_MAX_REQUESTS"
  shows "isRateLimited_calls bs client ts
         = (replicate (length ts) False,
            bs(client \<mapsto> \<lparr>count = c + length ts, windowStart = w\<rparr>))"
  using assms
proof (induction ts arbitrary: bs c)
  case Nil
  then show ?case by (simp add: map_upd_triv)
next
  case (Cons t ts)
  let ?bs = "bs(client \<mapsto> \<lparr>count = Suc c, windowStart = w\<rparr>)"
  have step: "isRateLimited bs client t = (False, ?bs)"
    using Cons.prems by (intro isRateLimited_admits) simp_all
  have "isRateLimited_calls ?bs client ts
        = (replicate (length ts) False,
           ?bs(client \<mapsto> \<lparr>count = Suc c + length ts, windowStart = w\<rparr>))"
    using Cons.prems by (intro Cons.IH) simp_all
  then have rest: "isRateLimited_calls ?bs client ts
        = (replicate (length ts) False,
           bs(client \<mapsto> \<lparr>count = c + length (t # ts), windowStart = w\<rparr>))"
    by simp
  have "isRateLimited_calls bs client (t # ts)
        = (replicate (length (t # ts)) False,
           bs(client \<mapsto> \<lparr>count = c + length (t # ts), windowStart = w\<rparr>))"
    using step rest by simp
  then show ?case
    by (simp add: fun_upd_def)
qed

lemma isRateLimited_opens:
  assumes "opens_window bs client now"
  shows "isRateLimited bs client now
         = (False, bs(client \<mapsto> \<lparr>count = 1, windowStart = now\<rparr>))"
  using assms by (cases "bs client") (simp_all add: isRateLimited_def opens_window_def)

text \<open>
  C6: when a call at time \<open>t\<close> opens a window for a client, it and the 19 calls that
  follow within the window are all admitted (\<^verbatim>\<open>isRateLimited\<close> returns false). A 21st
  call within the window is refused and leaves the buckets as they are. A call at
  \<open>t + 60001\<close> is admitted again, and resets the bucket to a count of 1.
\<close>

theorem rate_limit_twenty_per_window:
  assumes "opens_window bs client t"
    and "length ts = 19" and "list_all (within_window t) ts"
    and "within_window t t21"
  shows "fst (isRateLimited_calls bs client (t # ts)) = replicate 20 False
    \<and> isRateLimited (snd (isRateLimited_calls bs client (t # ts))) client t21
        = (True, snd (isRateLimited_calls bs client (t # ts)))
    \<and> isRateLimited (snd (isRateLimited_calls bs client (t # ts))) client (t + 60001)
        = (False, (snd (isRateLimited_calls bs client (t # ts)))
             (client \<mapsto> \<lparr>count = 1, windowStart = t + 60001\<rparr>))"
proof -
  let ?b1 = "bs(client \<mapsto> \<lparr>count = 1, windowStart = t\<rparr>)"
  let ?b20 = "?b1(client \<mapsto> \<lparr>count = 20, windowStart = t\<rparr>)"
  have first: "isRateLimited bs client t = (False, ?b1)"
    using assms(1) by (rule isRateLimited_opens)
  have "isRateLimited_calls ?b1 client ts
        = (replicate (length ts) False,
           ?b1(client \<mapsto> \<lparr>count = 1 + length ts, windowStart = t\<rparr>))"
    using assms(2,3)
    by (intro isRateLimited_calls_within_window) (simp_all add: RATE_LIMIT_MAX_REQUESTS_def)
  then have rest: "isRateLimited_calls ?b1 client ts = (replicate 19 False, ?b20)"
    using assms(2) by simp
  have calls: "isRateLimited_calls bs client (t # ts) = (replicate 20 False, ?b20)"
    using first rest by (simp add: numeral_Bit0 numeral_Bit1)
  have full: "isRateLimited ?b20 client t21 = (True, ?b20)"
    using assms(4)
    by (simp add: isRateLimited_def within_window_def RATE_LIMIT_MAX_REQUESTS_def)
  have later: "isRateLimited ?b20 client (t + 60001)
               = (False, ?b20(client \<mapsto> \<lparr>count = 1, windowStart = t + 60001\<rparr>))"
    by (simp add: isRateLimited_def RATE_LIMIT_WINDOW_MS_def)
  show ?thesis
    unfolding calls fst_conv snd_conv using full later by simp
qed

theorem rate_limit_twenty_per_window_witness:
  "opens_window Map.empty ''10.0.0.1'' 1000
   \<and> list_all (within_window 1000) (replicate 19 30000)
   \<and> within_window 1000 60999
   \<and> fst (isRateLimited_calls Map.empty ''10.0.0.1'' (1000 # replicate 19 30000))
      = replicate 20 False
   \<and> fst (isRateLimited
             (snd (isRateLimited_calls Map.empty ''10.0.0.1'' (1000 # replicate 19 30000)))
             ''10.0.0.1'' 60999)
   \<and> \<not> fst (isRateLimited
             (snd (isRateLimited_calls Map.empty ''10.0.0.1'' (1000 # replicate 19 30000)))
             ''10.0.0.1'' 61001)"
proof -
  have h1: "opens_window Map.empty ''10.0.0.1'' 1000"
    by (simp add: opens_window_def)
  have h2: "length (replicate 19 (30000::int)) = 19"
    by simp
  have h3: "list_all (within_window 1000) (replicate 19 30000)"
    by (simp add: list_all_iff within_window_def RATE_LIMIT_WINDOW_MS_def)
  have h4: "within_window 1000 60999"
    by (simp add: within_window_def RATE_LIMIT_WINDOW_MS_def)
  show ?thesis
    using rate_limit_twenty_per_window[OF h1 h2 h3 h4] h1 h3 h4 by simp
qed

section \<open>Properties of the cache\<close>

text \<open>
  C7: a result stored at \<open>t0\<close> is returned by a lookup at \<open>t0 + 299999\<close>, which leaves
  the cache as it is; a lookup at \<open>t0 + 300001\<close> returns nothing and removes the entry.
\<close>

theorem cache_round_trip:
  "getCachedResult (setCachedResult c k r t0) k (t0 + 299999)
     = (Some r, setCachedResult c k r t0)
   \<and> getCachedResult (setCachedResult c k r t0) k (t0 + 300001)
     = (None, (setCachedResult c k r t0)(k := None))"
  by (simp add: getCachedResult_def setCachedResult_def CACHE_TTL_MS_def)

section \<open>Properties of interpretDmvResponse\<close>

lemma startsWith_iff: "startsWith s p \<longleftrightarrow> (\<exists>b. s = p @ b)"
  unfolding startsWith_def
  by (metis append_eq_conv_conj append_take_drop_id)

lemma includes_js_iff: "includes_js s p \<longleftrightarrow> (\<exists>a b. s = a @ p @ b)"
proof (induction s)
  case Nil
  then show ?case by auto
next
  case (Cons c cs)
  show ?case
  proof
    assume "includes_js (c # cs) p"
    then consider "startsWith (c # cs) p" | "includes_js cs p" by auto
    then show "\<exists>a b. c # cs = a @ p @ b"
    proof cases
      case 1
      then obtain b where "c # cs = p @ b" by (auto simp: startsWith_iff)
      then have "c # cs = [] @ p @ b" by simp
      then show ?thesis by blast
    next
      case 2
      then obtain a b where "cs = a @ p @ b" using Cons.IH by blast
      then have "c # cs = (c # a) @ p @ b" by simp
      then show ?thesis by blast
    qed
  next
    assume "\<exists>a b. c # cs = a @ p @ b"
    then obtain a b where ab: "c # cs = a @ p @ b" by blast
    show "includes_js (c # cs) p"
    proof (cases a)
      case Nil
      then have "startsWith (c # cs) p" using ab unfolding startsWith_iff by auto
      then show ?thesis by simp
    next
      case (Cons x a')
      then have "cs = a' @ p @ b" using ab by simp
      then show ?thesis using Cons.IH by auto
    qed
  qed
qed

lemma includes_js_suffix_of_pattern:
  "includes_js s (q @ p) \<Longrightarrow> includes_js s p"
proof -
  assume "includes_js s (q @ p)"
  then obtain a b where "s = a @ (q @ p) @ b" by (auto simp: includes_js_iff)
  then have "s = (a @ q) @ p @ b" by simp
  then show ?thesis unfolding includes_js_iff by blast
qed

lemma interpret_text_shadowed:
  assumes "includes_js (toLowerCase s) ''not available'' \<or> includes_js (toLowerCase s) ''unavailable''"
  shows "interpret_text s = Literal \<lparr>status = ''available'', message = JStr ''That plate is available.''\<rparr>"
proof -
  have "includes_js (toLowerCase s) ''available''"
    using assms includes_js_suffix_of_pattern[of "toLowerCase s" "''not ''" "''available''"]
      includes_js_suffix_of_pattern[of "toLowerCase s" "''un''" "''available''"]
    by auto
  then show ?thesis by (simp add: interpret_text_def Let_def)
qed

lemma messageMap_status: "map_of messageMap k = Some r \<Longrightarrow> status r \<in> set statuses"
  by (auto simp: messageMap_def statuses_def split: if_splits)

lemma messageMap_get_Literal:
  "messageMap_get k = Some (Literal r) \<Longrightarrow> map_of messageMap k = Some r"
  by (auto simp: messageMap_get_def split: option.splits if_splits)

lemma interpret_text_status:
  "interpret_text s = Literal r \<Longrightarrow> status r \<in> set statuses"
  by (auto simp: interpret_text_def Let_def statuses_def split: if_splits)

lemma interpret_object_status:
  "interpret_object p code = Literal r \<Longrightarrow> status r \<in> set statuses"
  unfolding interpret_object_def Let_def
  by (auto simp: statuses_def dest!: messageMap_get_Literal messageMap_status
      split: option.splits if_splits jsval.splits)

lemma interpretDmvResponse_status:
  "interpretDmvResponse p h = Inr (Literal r) \<Longrightarrow> status r \<in> set statuses"
  unfolding interpretDmvResponse_def
  by (auto simp: statuses_def dest: interpret_text_status interpret_object_status
      split: if_splits jsval.splits sum.splits)

lemma toLowerChar_not_upper:
  "\<not> (65 \<le> (of_char (toLowerChar c) :: nat) \<and> (of_char (toLowerChar c) :: nat) \<le> 90)"
  by (auto simp: toLowerChar_def Let_def)

lemma toLowerCase_no_upper:
  "list_all (\<lambda>c. \<not> (65 \<le> (of_char c :: nat) \<and> (of_char c :: nat) \<le> 90)) (toLowerCase s)"
  using toLowerChar_not_upper by (auto simp: toLowerCase_def list_all_iff)

lemma methods_have_upper:
  "list_all (\<lambda>k. \<not> list_all (\<lambda>c. \<not> (65 \<le> (of_char c :: nat) \<and> (of_char c :: nat) \<le> 90)) k)
     Object_prototype_methods"
  by code_simp

lemma toLowerCase_not_method: "toLowerCase s \<notin> set Object_prototype_methods"
  using methods_have_upper toLowerCase_no_upper[of s] by (auto simp: list_all_iff)

lemma normalizedMessage_of_lower: "\<exists>s. normalizedMessage_of m = toLowerCase s"
proof (cases m)
  case (JStr x)
  then show ?thesis by (auto simp: normalizedMessage_of_def)
qed (auto simp: normalizedMessage_of_def toLowerCase_def)

lemma messageMap_get_normalized:
  assumes "messageMap_get (normalizedMessage_of m) = Some v"
  shows "(\<exists>r. v = Literal r) \<or> normalizedMessage_of m = ''constructor''
         \<or> normalizedMessage_of m = ''__proto__''"
proof -
  obtain s where "normalizedMessage_of m = toLowerCase s"
    using normalizedMessage_of_lower by blast
  then show ?thesis
    using assms toLowerCase_not_method[of s]
    by (auto simp: messageMap_get_def split: option.splits if_splits)
qed

lemma interpret_object_ordinary:
  assumes "normalizedMessage_of (payload_message p) \<noteq> ''constructor''"
    and "normalizedMessage_of (payload_message p) \<noteq> ''__proto__''"
  shows "\<exists>r. interpret_object p code = Literal r"
proof (cases "messageMap_get (normalizedMessage_of (payload_message p))")
  case None
  then show ?thesis
    by (simp add: interpret_object_def Let_def split: jsval.splits)
next
  case (Some v)
  then obtain r where "v = Literal r"
    using assms messageMap_get_normalized by blast
  then show ?thesis
    using Some by (simp add: interpret_object_def Let_def)
qed

text \<open>
  Apart from the two inherited keys and a throwing conversion, the interpreter returns a
  result with one of the four statuses. The message is taken to be ASCII, so that its
  normalized form is the one the program computes.
\<close>

lemma interpretDmvResponse_ordinary:
  assumes "payload_code p = Inr code"
    and "ascii_text (payload_message p)"
    and "normalizedMessage_of (payload_message p) \<noteq> ''constructor''"
    and "normalizedMessage_of (payload_message p) \<noteq> ''__proto__''"
  shows "\<exists>r. interpretDmvResponse p h = Inr (Literal r) \<and> status r \<in> set statuses"
proof -
  obtain r0 where r0: "interpret_object p code = Literal r0"
    using assms(3,4) interpret_object_ordinary by blast
  have "\<exists>r. interpretDmvResponse p h = Inr (Literal r)"
    unfolding interpretDmvResponse_def interpret_text_def Let_def
    using assms(1) r0 by (cases p) auto
  then show ?thesis
    using interpretDmvResponse_status by blast
qed

lemma toUpperChar_ascii: "((of_char (toUpperChar c) :: nat) < 128) = ((of_char c :: nat) < 128)"
  by (auto simp: toUpperChar_def Let_def)

lemma ascii_toUpperCase: "ascii (toUpperCase s) = ascii s"
  by (induction s) (simp_all add: ascii_def toUpperCase_def toUpperChar_ascii)

text \<open>
  C1: the textual payload \<^verbatim>\<open>Sorry, not available\<close> is not interpreted as taken. Its
  lowercase form contains \<^verbatim>\<open>available\<close>, which the first test of the textual branch
  accepts, so below HTTP status 500 the result is \<^verbatim>\<open>available\<close>. (By
  \<open>interpret_text_shadowed\<close> this holds of every text that contains
  \<^verbatim>\<open>not available\<close> or \<^verbatim>\<open>unavailable\<close>.)
\<close>

theorem interpret_sorry_not_available:
  "interpretDmvResponse (JStr ''Sorry, not available'') httpStatus
   = (if httpStatus \<ge> 500
        then Inr (Literal \<lparr>status = ''unavailable'',
               message = JStr ''DMV service is temporarily unavailable. Please try again shortly.''\<rparr>)
      else Inr (Literal \<lparr>status = ''available'', message = JStr ''That plate is available.''\<rparr>))"
proof -
  have "interpret_text ''Sorry, not available''
        = Literal \<lparr>status = ''available'', message = JStr ''That plate is available.''\<rparr>"
    by code_simp
  then show ?thesis
    by (simp add: interpretDmvResponse_def)
qed

text \<open>
  C2: \<^verbatim>\<open>interpretDmvResponse\<close> does not always return a result with one of the four
  statuses. On the payload \<^verbatim>\<open>{"message": "constructor"}\<close> the read
  \<^verbatim>\<open>messageMap["constructor"]\<close> finds the inherited constructor \<^verbatim>\<open>Object\<close>, which
  is returned and has no status. On \<^verbatim>\<open>{"code": {"toString": 1}}\<close> the call
  \<^verbatim>\<open>String(payload.code)\<close> throws a TypeError.
\<close>

theorem interpretDmvResponse_not_total:
  "interpretDmvResponse (JObj [(''message'', JStr ''constructor'')]) 200 = Inr ObjectConstructor
   \<and> status_of ObjectConstructor = None
   \<and> interpretDmvResponse (JObj [(''code'', JObj [(''toString'', JNum ''1'')])]) 200
     = Inl (TypeError ''Cannot convert object to primitive value'')"
  by code_simp




section \<open>Properties of the request handler\<close>

lemma interpreted_storable:
  assumes "interpretDmvResponse p h = Inr r" and "status_of r \<noteq> Some ''unavailable''"
  shows "storable r"
proof (cases r)
  case (Literal x)
  then have "status x \<in> set statuses"
    using assms(1) interpretDmvResponse_status by blast
  then show ?thesis
    using assms(2) Literal by (auto simp: storable_def statuses_def)
qed (simp_all add: storable_def)

lemma getCachedResult_storable:
  assumes "cache_storable c" and "getCachedResult c k now = (r, c')"
  shows "cache_storable c'" and "r = Some v \<Longrightarrow> storable v"
  using assms
  by (auto simp: getCachedResult_def cache_storable_def split: option.splits if_splits)

lemma setCachedResult_storable:
  "cache_storable c \<Longrightarrow> storable r \<Longrightarrow> cache_storable (setCachedResult c k r now)"
  by (auto simp: setCachedResult_def cache_storable_def)

lemma check_plate_cases:
  obtains
    (limited) b where "isRateLimited (requestBuckets st) (getClientIp request) (now_rate clk) = (True, b)"
      and "check_plate st request clk upstream
           = (Reply 429 (ErrorBody (JStr ''Too many requests. Please wait a minute and try again.'') None),
              st\<lparr>requestBuckets := b\<rparr>)"
  | (missing) b where "isRateLimited (requestBuckets st) (getClientIp request) (now_rate clk) = (False, b)"
      and "get_prop (or_js (body request) (JObj [])) ''plate'' = JUndefined
           \<or> get_prop (or_js (body request) (JObj [])) ''plate'' = JNull"
      and "check_plate st request clk upstream
           = (Reply 400 (ErrorBody (JStr ''Missing plate value.'') None), st\<lparr>requestBuckets := b\<rparr>)"
  | (invalid) b err where "isRateLimited (requestBuckets st) (getClientIp request) (now_rate clk) = (False, b)"
      and "normalizePlate (get_prop (or_js (body request) (JObj [])) ''plate'') = Inl err"
      and "check_plate st request clk upstream = (reply_caught err, st\<lparr>requestBuckets := b\<rparr>)"
  | (hit) b normalized r c where "isRateLimited (requestBuckets st) (getClientIp request) (now_rate clk) = (False, b)"
      and "normalizePlate (get_prop (or_js (body request) (JObj [])) ''plate'') = Inr normalized"
      and "getCachedResult (plateCache st) normalized (now_lookup clk) = (Some r, c)"
      and "check_plate st request clk upstream
           = (Reply 200 (ResultBody r True), st\<lparr>requestBuckets := b, plateCache := c\<rparr>)"
  | (failed) b normalized c err where "isRateLimited (requestBuckets st) (getClientIp request) (now_rate clk) = (False, b)"
      and "normalizePlate (get_prop (or_js (body request) (JObj [])) ''plate'') = Inr normalized"
      and "getCachedResult (plateCache st) normalized (now_lookup clk) = (None, c)"
      and "upstream = Inl err \<or> (\<exists>h p. upstream = Inr (h, p) \<and> interpretDmvResponse p h = Inl err)"
      and "check_plate st request clk upstream
           = (reply_caught err, st\<lparr>requestBuckets := b, plateCache := c\<rparr>)"
  | (unavailable) b normalized c h p r where "isRateLimited (requestBuckets st) (getClientIp request) (now_rate clk) = (False, b)"
      and "normalizePlate (get_prop (or_js (body request) (JObj [])) ''plate'') = Inr normalized"
      and "getCachedResult (plateCache st) normalized (now_lookup clk) = (None, c)"
      and "upstream = Inr (h, p)" and "interpretDmvResponse p h = Inr r"
      and "status_of r = Some ''unavailable''"
      and "check_plate st request clk upstream
           = (Reply 502 (ErrorBody (message_of r) None), st\<lparr>requestBuckets := b, plateCache := c\<rparr>)"
  | (stored) b normalized c h p r where "isRateLimited (requestBuckets st) (getClientIp request) (now_rate clk) = (False, b)"
      and "normalizePlate (get_prop (or_js (body request) (JObj [])) ''plate'') = Inr normalized"
      and "getCachedResult (plateCache st) normalized (now_lookup clk) = (None, c)"
      and "upstream = Inr (h, p)" and "interpretDmvResponse p h = Inr r"
      and "status_of r \<noteq> Some ''unavailable''"
      and "check_plate st request clk upstream
           = (Reply 200 (ResultBody r False),
              st\<lparr>requestBuckets := b, plateCache := setCachedResult c normalized r (now_store clk)\<rparr>)"
proof -
  obtain l b where rl: "isRateLimited (requestBuckets st) (getClientIp request) (now_rate clk) = (l, b)"
    by (cases "isRateLimited (requestBuckets st) (getClientIp request) (now_rate clk)")
  let ?plate = "get_prop (or_js (body request) (JObj [])) ''plate''"
  show thesis
  proof (cases l)
    case True
    then show ?thesis using rl limited by (simp add: check_plate_def)
  next
    case nl: False
    show ?thesis
    proof (cases "?plate = JUndefined \<or> ?plate = JNull")
      case True
      then show ?thesis using rl nl missing by (simp add: check_plate_def Let_def)
    next
      case present: False
      show ?thesis
      proof (cases "normalizePlate ?plate")
        case (Inl err)
        then show ?thesis using rl nl present invalid by (simp add: check_plate_def Let_def)
      next
        case (Inr normalized)
        obtain cached c where gc: "getCachedResult (plateCache st) normalized (now_lookup clk) = (cached, c)"
          by (cases "getCachedResult (plateCache st) normalized (now_lookup clk)")
        show ?thesis
        proof (cases cached)
          case (Some r)
          then show ?thesis using rl nl present Inr gc hit by (simp add: check_plate_def Let_def)
        next
          case None
          show ?thesis
          proof (cases upstream)
            case (Inl err)
            then show ?thesis
              using rl nl present Inr gc None failed[of b normalized c err]
              by (simp add: check_plate_def Let_def)
          next
            case up: (Inr hp)
            obtain h p where hp: "hp = (h, p)" by (cases hp)
            show ?thesis
            proof (cases "interpretDmvResponse p h")
              case (Inl err)
              then show ?thesis
                using rl nl present Inr gc None up hp failed[of b normalized c err]
                by (simp add: check_plate_def Let_def)
            next
              case ir: (Inr r)
              show ?thesis
              proof (cases "status_of r = Some ''unavailable''")
                case True
                then show ?thesis
                  using rl nl present Inr gc None up hp ir unavailable[of b normalized c h p r]
                  by (simp add: check_plate_def Let_def)
              next
                case False
                then show ?thesis
                  using rl nl present Inr gc None up hp ir stored[of b normalized c h p r]
                  by (simp add: check_plate_def Let_def)
              qed
            qed
          qed
        qed
      qed
    qed
  qed
qed

lemma check_plate_keeps_cache_storable:
  assumes "cache_storable (plateCache st)"
  shows "cache_storable (plateCache (snd (check_plate st request clk upstream)))"
proof (cases rule: check_plate_cases[where st=st and request=request and clk=clk and upstream=upstream])
  case (limited b)
  then show ?thesis using assms by simp
next
  case (missing b)
  then show ?thesis using assms by simp
next
  case (invalid b err)
  then show ?thesis using assms by simp
next
  case (hit b normalized r c)
  have "cache_storable c"
    using assms hit(3) by (rule getCachedResult_storable(1))
  then show ?thesis using hit(4) by simp
next
  case (failed b normalized c err)
  have "cache_storable c"
    using assms failed(3) by (rule getCachedResult_storable(1))
  then show ?thesis using failed(5) by simp
next
  case (unavailable b normalized c h p r)
  have "cache_storable c"
    using assms unavailable(3) by (rule getCachedResult_storable(1))
  then show ?thesis using unavailable(7) by simp
next
  case (stored b normalized c h p r)
  have "cache_storable c"
    using assms stored(3) by (rule getCachedResult_storable(1))
  moreover have "storable r"
    using stored(5,6) by (rule interpreted_storable)
  ultimately show ?thesis
    using stored(7) by (simp add: setCachedResult_storable)
qed

lemma check_plate_200_storable:
  assumes "cache_storable (plateCache st)"
    and "fst (check_plate st request clk upstream) = Reply 200 (ResultBody r c)"
  shows "storable r"
proof (cases rule: check_plate_cases[where st=st and request=request and clk=clk and upstream=upstream])
  case (limited b)
  then show ?thesis using assms(2) by simp
next
  case (missing b)
  then show ?thesis using assms(2) by simp
next
  case (invalid b err)
  then show ?thesis using assms(2) by (cases err) (simp_all add: reply_caught_def)
next
  case (hit b normalized r' c')
  have "storable r'"
    using assms(1) hit(3) by (rule getCachedResult_storable(2)) simp
  then show ?thesis using assms(2) hit(4) by simp
next
  case (failed b normalized c' err)
  then show ?thesis using assms(2) by (cases err) (simp_all add: reply_caught_def)
next
  case (unavailable b normalized c' h p r')
  then show ?thesis using assms(2) by simp
next
  case (stored b normalized c' h p r')
  have "storable r'"
    using stored(5,6) by (rule interpreted_storable)
  then show ?thesis using assms(2) stored(7) by simp
qed

lemma check_plate_unavailable_502:
  assumes "\<not> fst (isRateLimited (requestBuckets st) (getClientIp request) (now_rate clk))"
    and "normalizePlate (get_prop (or_js (body request) (JObj [])) ''plate'') = Inr normalized"
    and "fst (getCachedResult (plateCache st) normalized (now_lookup clk)) = None"
    and "upstream = Inr (h, p)"
    and "interpretDmvResponse p h = Inr r"
    and "status_of r = Some ''unavailable''"
  shows "fst (check_plate st request clk upstream) = Reply 502 (ErrorBody (message_of r) None)
    \<and> plateCache (snd (check_plate st request clk upstream))
         = snd (getCachedResult (plateCache st) normalized (now_lookup clk))"
proof (cases rule: check_plate_cases[where st=st and request=request and clk=clk and upstream=upstream])
  case (limited b)
  then show ?thesis using assms(1) by simp
next
  case (missing b)
  then show ?thesis using assms(2) by (auto simp: normalizePlate_def)
next
  case (invalid b err)
  then show ?thesis using assms(2) by simp
next
  case (hit b n r' c)
  then show ?thesis using assms(2,3) by simp
next
  case (failed b n c err)
  then show ?thesis using assms(4,5) by auto
next
  case (unavailable b n c h' p' r')
  then show ?thesis using assms(2,4,5) by simp
next
  case (stored b n c h' p' r')
  then show ?thesis using assms(4,5,6) by simp
qed




text \<open>
  C4: an entry of the cache need not have one of the statuses \<^verbatim>\<open>available\<close>,
  \<^verbatim>\<open>taken\<close>, \<^verbatim>\<open>invalid\<close>. When the upstream payload is
  \<^verbatim>\<open>{"message": "constructor"}\<close>, the interpreter returns the constructor
  \<^verbatim>\<open>Object\<close>; its status is \<^verbatim>\<open>undefined\<close>, which is not \<^verbatim>\<open>unavailable\<close>,
  and the handler stores it. (By \<open>check_plate_keeps_cache_storable\<close> an entry that has a
  status has one of these three, and none has \<^verbatim>\<open>unavailable\<close>.)
\<close>

theorem check_plate_caches_constructor:
  "plateCache (snd (check_plate
       \<lparr>requestBuckets = Map.empty, plateCache = Map.empty\<rparr>
       \<lparr>x_forwarded_for = None, ip = Some ''10.0.0.1'', body = JObj [(''plate'', JStr ''ab1'')]\<rparr>
       \<lparr>now_rate = 1000, now_lookup = 1000, now_store = 1000\<rparr>
       (Inr (200, JObj [(''message'', JStr ''constructor'')])))) ''AB1''
     = Some \<lparr>result = ObjectConstructor, expiresAt = 301000\<rparr>
   \<and> status_of ObjectConstructor = None"
  by code_simp

text \<open>
  C9: a reply with code 200 need not carry one of the statuses \<^verbatim>\<open>available\<close>,
  \<^verbatim>\<open>taken\<close>, \<^verbatim>\<open>invalid\<close>. On the same upstream payload the handler replies 200
  with the properties of \<^verbatim>\<open>Object\<close> spread into the body, which has no status.
  (By \<open>check_plate_unavailable_502\<close> an \<^verbatim>\<open>unavailable\<close> interpretation is answered
  with 502 and the interpreter's message, and by \<open>check_plate_200_storable\<close> a status
  sent with 200 is one of the three.)
\<close>

theorem check_plate_200_without_status:
  "fst (check_plate
       \<lparr>requestBuckets = Map.empty, plateCache = Map.empty\<rparr>
       \<lparr>x_forwarded_for = None, ip = Some ''10.0.0.1'', body = JObj [(''plate'', JStr ''ab1'')]\<rparr>
       \<lparr>now_rate = 1000, now_lookup = 1000, now_store = 1000\<rparr>
       (Inr (200, JObj [(''message'', JStr ''constructor'')])))
     = Reply 200 (ResultBody ObjectConstructor False)
   \<and> status_of ObjectConstructor = None"
  by code_simp

end
